theory Spec2Isabelle
  imports Complex_Main "HOL-Library.Word"
begin

section \<open>The OBD-II scan tool simulator (odbsim.ino)\<close>

text \<open>
  The sketch runs on an AVR board (the README names an Arduino Nano), so \<open>byte\<close> is an
  8-bit word, \<open>int\<close> and \<open>unsigned int\<close> are 16-bit words, \<open>unsigned long\<close> is a
  32-bit word, and \<open>float\<close> and \<open>double\<close> are both the binary32 format.

  An Arduino \<open>String\<close> is the list of the \<open>len\<close> characters of its buffer, of any
  length (the memory of the board is not modelled). A NUL character can be among them
  (\<open>loop\<close> appends whatever the port delivers), and the operations of the class that
  go through the C string functions stop at the first one: they are modelled so.

  A finite binary32 value is the rational it denotes, and every sum, product and
  quotient of the sketch is rounded to the nearest binary32 value, ties to even.
\<close>

subsection \<open>Constants\<close>

definition DEVICE_DESCRIPTION :: string where
  "DEVICE_DESCRIPTION = ''OBDII Arduino Simulator''"

definition VERSION :: string where
  "VERSION = DEVICE_DESCRIPTION @ '' '' @ ''v1.0''"

definition OK :: string where
  "OK = ''OK''"

definition PROMPT :: string where
  "PROMPT = ''>''"

definition CR :: char where
  "CR = CHR 0x0D"

definition LF :: char where
  "LF = CHR 0x0A"

definition SPACE :: char where
  "SPACE = CHR '' ''"

definition AT_REQ :: string where
  "AT_REQ = ''AT''"

definition MODE_01_REQ :: string where
  "MODE_01_REQ = ''01''"

definition MODE_21_REQ :: string where
  "MODE_21_REQ = ''21''"

definition MODE_01_RSP :: string where
  "MODE_01_RSP = ''41''"

definition MODE_21_RSP :: string where
  "MODE_21_RSP = ''61''"

definition MODE_1_SUPPORTED_PIDS :: string where
  "MODE_1_SUPPORTED_PIDS = ''00''"

definition MODE_1_ENG_COOLANT_TEMP :: string where
  "MODE_1_ENG_COOLANT_TEMP = ''05''"

definition MODE_1_IN_MANIFLD_PRESS_ABS :: string where
  "MODE_1_IN_MANIFLD_PRESS_ABS = ''0B''"

definition MODE_1_ENG_RPM :: string where
  "MODE_1_ENG_RPM = ''0C''"

definition MODE_1_VEHICLE_SPEED :: string where
  "MODE_1_VEHICLE_SPEED = ''0D''"

definition MODE_1_FUEL_TANK_LVL_IN :: string where
  "MODE_1_FUEL_TANK_LVL_IN = ''2F''"

definition MODE_1_AMBIENT_AIR_TEMP :: string where
  "MODE_1_AMBIENT_AIR_TEMP = ''46''"

definition MODE_1_ENG_OIL_TEMP :: string where
  "MODE_1_ENG_OIL_TEMP = ''5C''"

definition SERIAL_DEBUG :: bool where
  "SERIAL_DEBUG = False"

subsection \<open>The Arduino String operations the sketch calls\<close>

text \<open>
  \<open>String::startsWith\<close>: false when the prefix is longer than the string, else
  \<open>strncmp\<close> over the length of the prefix, which for a prefix without a NUL character
  (the sketch's are 01, 21 and AT) compares the first characters.
\<close>

definition startsWith :: "string \<Rightarrow> string \<Rightarrow> bool" where
  "startsWith s p = (take (length p) s = p)"

text \<open>The C string in a buffer: the characters before the first NUL.\<close>

definition NUL :: char where
  "NUL = CHR 0x00"

definition c_str :: "string \<Rightarrow> string" where
  "c_str s = takeWhile (\<lambda>c. c \<noteq> NUL) s"

text \<open>
  A \<open>String\<close> passed by value is copied with \<open>strcpy\<close>: the copy holds the characters
  before the first NUL. Its length field is the original's; \<open>processRequest\<close> reads it
  only in the guards of \<open>startsWith\<close> and \<open>substring\<close>, which come out the same for
  the length of the characters copied.
\<close>

definition String_copy :: "string \<Rightarrow> string" where
  "String_copy s = c_str s"

text \<open>
  \<open>String::substring(from)\<close>: the C string that starts at the index, empty when the
  index is not below the length.
\<close>

definition substring :: "string \<Rightarrow> nat \<Rightarrow> string" where
  "substring s from = c_str (drop from s)"

text \<open>\<open>toupper\<close> of the C library: the ASCII letters a to z, nothing else.\<close>

definition toupper :: "char \<Rightarrow> char" where
  "toupper c =
     (if 97 \<le> (of_char c :: nat) \<and> (of_char c :: nat) \<le> 122
      then char_of ((of_char c :: nat) - 32) else c)"

text \<open>
  \<open>String::toUpperCase\<close> walks the buffer up to the first NUL and leaves the rest as
  it is.
\<close>

definition toUpperCase :: "string \<Rightarrow> string" where
  "toUpperCase s = map toupper (c_str s) @ drop (length (c_str s)) s"

text \<open>
  \<open>String(value, HEX)\<close> of an \<open>unsigned long\<close> is \<open>ultoa\<close> in base 16: the digits of the
  value, most significant first, no leading zero, the letters in lower case.
\<close>

definition hex_digit :: "nat \<Rightarrow> char" where
  "hex_digit d = ''0123456789abcdef'' ! d"

function ultoa_hex :: "nat \<Rightarrow> string" where
  "ultoa_hex n = (if n < 16 then [hex_digit n] else ultoa_hex (n div 16) @ [hex_digit (n mod 16)])"
  by pat_completeness auto
termination
  by (relation "measure id") auto

declare ultoa_hex.simps [simp del]

definition String_HEX :: "32 word \<Rightarrow> string" where
  "String_HEX v = ultoa_hex (unat v)"

text \<open>The value a string of hexadecimal digits denotes (either case of the letters).\<close>

definition hex_digit_val :: "char \<Rightarrow> nat" where
  "hex_digit_val c =
     (let k = (of_char c :: nat) in
      if 48 \<le> k \<and> k \<le> 57 then k - 48
      else if 97 \<le> k \<and> k \<le> 102 then k - 87
      else if 65 \<le> k \<and> k \<le> 70 then k - 55
      else 0)"

definition hex_val :: "string \<Rightarrow> nat" where
  "hex_val s = foldl (\<lambda>acc c. 16 * acc + hex_digit_val c) 0 s"

subsection \<open>toHexReply\<close>

text \<open>
  The padding loop of \<open>toHexReply\<close>: a zero is put in front and the counted length grows
  by one while the width is above the counted length.
\<close>

function pad_loop :: "int \<Rightarrow> string \<Rightarrow> int \<Rightarrow> string" where
  "pad_loop width value_hex value_hex_len =
     (if width - value_hex_len > 0
      then pad_loop width (''0'' @ value_hex) (value_hex_len + 1)
      else value_hex)"
  by pat_completeness auto
termination
  by (relation "measure (\<lambda>(width, value_hex, value_hex_len). nat (width - value_hex_len))") auto

declare pad_loop.simps [simp del]

definition MAX_REPLY_LEN :: int where
  "MAX_REPLY_LEN = 4"

definition toHexReply :: "32 word \<Rightarrow> int \<Rightarrow> string" where
  "toHexReply v width =
     (let value_hex = String_HEX v;
          value_hex_len = int (length value_hex)
      in if width \<le> MAX_REPLY_LEN
         then pad_loop (width * 2) value_hex value_hex_len
         else value_hex)"

subsection \<open>The global variables and the two serial ports\<close>

text \<open>
  \<open>OBDRequest\<close> is the static buffer of \<open>loop\<close>. \<open>rpm_interrupt\<close> tells whether
  \<open>attachInterrupt\<close> has tied \<open>onRpm\<close> to the pin. \<open>BtSerial\<close> and \<open>Serial\<close> hold the
  lines printed so far with \<open>println\<close>, oldest first.
\<close>

record sim_state =
  rpm_pulse_count :: "8 word"
  rpm :: "16 word"
  time_old :: "32 word"
  eng_rpm :: "16 word"
  ambient_air_temp :: "16 word"
  eng_oil_temp :: "16 word"
  eng_coolant_temp :: rat
  vehicle_speed :: rat
  in_manifld_press_abs :: rat
  fuel_percentage :: rat
  vehicle_speed_2 :: rat
  analog_in_5 :: rat
  eng_oil_press :: "16 word"
  OBDRequest :: string
  rpm_interrupt :: bool
  BtSerial :: "string list"
  Serial :: "string list"

text \<open>The variables at power-on: zero, but for \<open>eng_rpm\<close>, which starts at 5400.\<close>

definition power_on :: sim_state where
  "power_on =
     \<lparr>rpm_pulse_count = 0, rpm = 0, time_old = 0, eng_rpm = 5400,
      ambient_air_temp = 0, eng_oil_temp = 0, eng_coolant_temp = 0, vehicle_speed = 0,
      in_manifld_press_abs = 0, fuel_percentage = 0, vehicle_speed_2 = 0,
      analog_in_5 = 0, eng_oil_press = 0, OBDRequest = [], rpm_interrupt = False,
      BtSerial = [], Serial = []\<rparr>"

text \<open>
  What C++ leaves undefined is taken from a record of indeterminate values, so that
  every statement holds whatever they are: the contents of the locals of
  \<open>processRequest\<close> that no branch assigned, as \<open>replyOBD2\<close> receives them; the result
  of converting a \<open>double\<close> outside the range of the target type; the quotient of a
  division by zero.
\<close>

record indeterminate =
  unassigned_after_formula :: "32 word"
  unassigned_reply_bytes :: "8 word"
  ulong_out_of_range :: "rat \<Rightarrow> 32 word"
  int_out_of_range :: "rat \<Rightarrow> 16 word"
  div_by_zero :: "32 word"

definition no_junk :: indeterminate where
  "no_junk =
     \<lparr>unassigned_after_formula = 0, unassigned_reply_bytes = 0,
      ulong_out_of_range = (\<lambda>_. 0), int_out_of_range = (\<lambda>_. 0), div_by_zero = 0\<rparr>"

text \<open>What one pass of \<open>loop\<close> reads from outside: the clock, the analog pin, the port.\<close>

record cycle_input =
  micros_elapsed :: "32 word"
  micros_reset :: "32 word"
  analogRead_5 :: "16 word"
  BtSerial_read :: "char option"

subsection \<open>Binary32 arithmetic\<close>

text \<open>The number of binary digits of a natural number.\<close>

function bit_length :: "nat \<Rightarrow> nat" where
  "bit_length n = (if n = 0 then 0 else Suc (bit_length (n div 2)))"
  by pat_completeness auto
termination
  by (relation "measure id") auto

declare bit_length.simps [simp del]

definition pow2 :: "int \<Rightarrow> rat" where
  "pow2 e = (if 0 \<le> e then 2 ^ nat e else 1 / 2 ^ nat (- e))"

text \<open>
  The exponent \<open>e\<close> of a rational other than zero: \<open>pow2 e \<le> \<bar>q\<bar> < pow2 (e + 1)\<close>.
\<close>

definition exponent :: "rat \<Rightarrow> int" where
  "exponent q =
     (if 1 \<le> \<bar>q\<bar> then int (bit_length (nat \<lfloor>\<bar>q\<bar>\<rfloor>)) - 1
      else (let k = int (bit_length (nat \<lfloor>1 / \<bar>q\<bar>\<rfloor>))
            in if 1 \<le> \<bar>q\<bar> * pow2 (k - 1) then 1 - k else - k))"

text \<open>The nearest integer, the even one of the two when they are equally near.\<close>

definition round_to_even :: "rat \<Rightarrow> int" where
  "round_to_even q =
     (let n = \<lfloor>q\<rfloor>; r = q - of_int n
      in if r < 1 / 2 then n else if 1 / 2 < r then n + 1 else if even n then n else n + 1)"

text \<open>
  Rounding to binary32: 24 significant binary digits, the last of them worth at least
  \<open>pow2 (- 149)\<close> (the subnormal numbers). A result of \<open>pow2 128\<close> or more stands for
  an infinity; the sketch only ever converts such a result to an integer type, where
  it is out of range like the infinity.
\<close>

definition binary32 :: "rat \<Rightarrow> rat" where
  "binary32 q =
     (if q = 0 then 0
      else (let p = max (exponent q - 23) (- 149)
            in of_int (round_to_even (q / pow2 p)) * pow2 p))"

definition fadd :: "rat \<Rightarrow> rat \<Rightarrow> rat" where
  "fadd a b = binary32 (a + b)"

definition fmul :: "rat \<Rightarrow> rat \<Rightarrow> rat" where
  "fmul a b = binary32 (a * b)"

definition fdiv :: "rat \<Rightarrow> rat \<Rightarrow> rat" where
  "fdiv a b = binary32 (a / b)"

subsection \<open>Conversions between the number types\<close>

text \<open>A floating-point value converted to an integer type loses its fraction.\<close>

definition trunc :: "rat \<Rightarrow> int" where
  "trunc q = (if 0 \<le> q then \<lfloor>q\<rfloor> else \<lceil>q\<rceil>)"

definition double_to_ulong :: "indeterminate \<Rightarrow> rat \<Rightarrow> 32 word" where
  "double_to_ulong u q =
     (if 0 \<le> trunc q \<and> trunc q < 2 ^ 32 then word_of_int (trunc q)
      else ulong_out_of_range u q)"

definition double_to_int :: "indeterminate \<Rightarrow> rat \<Rightarrow> 16 word" where
  "double_to_int u q =
     (if - (2 ^ 15) \<le> trunc q \<and> trunc q < 2 ^ 15 then word_of_int (trunc q)
      else int_out_of_range u q)"

text \<open>Every 16-bit integer is a binary32 value: the conversion is exact.\<close>

definition int_to_double :: "16 word \<Rightarrow> rat" where
  "int_to_double i = of_int (sint i)"

subsection \<open>The replies\<close>

definition replyValue :: "sim_state \<Rightarrow> string \<Rightarrow> sim_state" where
  "replyValue st v =
     (let st1 = st\<lparr>BtSerial := BtSerial st @ [v]\<rparr>
      in if SERIAL_DEBUG then st1\<lparr>Serial := Serial st1 @ [v]\<rparr> else st1)"

definition replyOBD2 :: "sim_state \<Rightarrow> string \<Rightarrow> string \<Rightarrow> 32 word \<Rightarrow> 8 word \<Rightarrow> sim_state" where
  "replyOBD2 st mode_response pid v reply_bytes =
     (let modeReply = mode_response @ pid @ toHexReply v (uint reply_bytes);
          st1 = st\<lparr>BtSerial := BtSerial st @ [modeReply]\<rparr>
      in if SERIAL_DEBUG then st1\<lparr>Serial := Serial st1 @ [modeReply]\<rparr> else st1)"

definition replyOK :: "sim_state \<Rightarrow> sim_state" where
  "replyOK st = replyValue st OK"

definition replyNotImplemented :: "sim_state \<Rightarrow> sim_state" where
  "replyNotImplemented st = replyOK st"

definition replyVersion :: "sim_state \<Rightarrow> sim_state" where
  "replyVersion st = replyValue st VERSION"

definition replyDescription :: "sim_state \<Rightarrow> sim_state" where
  "replyDescription st = replyValue st DEVICE_DESCRIPTION"

definition replyPrompt :: "sim_state \<Rightarrow> sim_state" where
  "replyPrompt st = replyValue st PROMPT"

text \<open>The echo of a request on the debug port, when the switch is on.\<close>

definition debug_println :: "sim_state \<Rightarrow> string \<Rightarrow> sim_state" where
  "debug_println st l = (if SERIAL_DEBUG then st\<lparr>Serial := Serial st @ [l]\<rparr> else st)"

subsection \<open>The sensors\<close>

definition initSensors :: "sim_state \<Rightarrow> sim_state" where
  "initSensors st = st\<lparr>rpm_pulse_count := 0, rpm := 0, time_old := 0, rpm_interrupt := True\<rparr>"

definition onRpm :: "sim_state \<Rightarrow> sim_state" where
  "onRpm st = st\<lparr>rpm_pulse_count := rpm_pulse_count st + 1\<rparr>"

text \<open>
  The product \<open>(30UL * 1000UL * 1000UL / (micros() - time_old)) * rpm_pulse_count\<close> is
  formed in 32 bits and cut to the 16 bits of \<open>rpm\<close>; \<open>eng_rpm\<close> takes the same 16 bits.
  \<open>micros()\<close> is read twice, for the elapsed time and for the new reference.
\<close>

definition rpm_formula :: "indeterminate \<Rightarrow> 32 word \<Rightarrow> 8 word \<Rightarrow> 16 word" where
  "rpm_formula u elapsed pulses =
     ucast ((if elapsed = 0 then div_by_zero u else (30 * 1000 * 1000) div elapsed)
            * (ucast pulses :: 32 word))"

definition updateSensorValues :: "indeterminate \<Rightarrow> cycle_input \<Rightarrow> sim_state \<Rightarrow> sim_state" where
  "updateSensorValues u inp st =
     (let st1 =
        (if 30 \<le> uint (rpm_pulse_count st)
         then (let r = rpm_formula u (micros_elapsed inp - time_old st) (rpm_pulse_count st)
               in st\<lparr>rpm := r, time_old := micros_reset inp, rpm_pulse_count := 0,
                     eng_rpm := r\<rparr>)
         else st)
      in st1\<lparr>eng_coolant_temp := 93, vehicle_speed := 155, in_manifld_press_abs := 200,
             ambient_air_temp := 22, eng_oil_temp := 109, fuel_percentage := 89,
             eng_oil_press := 65, analog_in_5 := int_to_double (analogRead_5 inp),
             vehicle_speed_2 := 312\<rparr>)"

text \<open>\<open>setup()\<close> of the sketch: the sensors; opening the ports changes no variable.\<close>

definition sketch_setup :: "sim_state \<Rightarrow> sim_state" where
  "sketch_setup st = initSensors st"

subsection \<open>processRequest\<close>

text \<open>
  The locals \<open>reply_bytes\<close> and \<open>after_formula\<close> are declared without a value: \<open>None\<close>
  until a branch assigns them. \<open>mode_id_rsp\<close> is assigned the response prefix of the
  branch just before \<open>replyOBD2\<close> is called with it. The constant 142249984 has 16
  significant binary digits and is a binary32 value.
\<close>

definition TEMP_OFFSET :: rat where
  "TEMP_OFFSET = 40"

definition mode01_locals :: "indeterminate \<Rightarrow> sim_state \<Rightarrow> string \<Rightarrow> 8 word option \<times> rat option" where
  "mode01_locals u st pid =
     (if pid = MODE_1_SUPPORTED_PIDS then (Some 4, Some 142249984)
      else if pid = MODE_1_ENG_COOLANT_TEMP
        then (Some 1, Some (fadd (eng_coolant_temp st) TEMP_OFFSET))
      else if pid = MODE_1_ENG_RPM then (Some 2, Some (fmul (int_to_double (eng_rpm st)) 4))
      else if pid = MODE_1_VEHICLE_SPEED then (Some 1, Some (vehicle_speed st))
      else if pid = MODE_1_IN_MANIFLD_PRESS_ABS then (Some 1, Some (in_manifld_press_abs st))
      else if pid = MODE_1_FUEL_TANK_LVL_IN
        then (Some 1, Some (int_to_double (double_to_int u
                (fmul (fdiv (fuel_percentage st) 100) 255))))
      else if pid = MODE_1_AMBIENT_AIR_TEMP
        then (Some 1, Some (fadd (int_to_double (ambient_air_temp st)) TEMP_OFFSET))
      else if pid = MODE_1_ENG_OIL_TEMP
        then (Some 1, Some (fadd (int_to_double (eng_oil_temp st)) TEMP_OFFSET))
      else (Some 1, Some 0))"

definition mode21_locals :: "sim_state \<Rightarrow> string \<Rightarrow> 8 word option \<times> rat option" where
  "mode21_locals st pid =
     (if pid = ''13'' then (Some 2, Some (vehicle_speed_2 st))
      else if pid = ''14'' then (Some 1, Some (int_to_double (eng_oil_press st)))
      else if pid = ''15'' then (Some 2, Some (analog_in_5 st))
      else (None, None))"

text \<open>The arguments of \<open>replyOBD2\<close> as the call reads them from the locals.\<close>

definition read_after_formula :: "indeterminate \<Rightarrow> rat option \<Rightarrow> 32 word" where
  "read_after_formula u af =
     (case af of None \<Rightarrow> unassigned_after_formula u | Some q \<Rightarrow> double_to_ulong u q)"

definition read_reply_bytes :: "indeterminate \<Rightarrow> 8 word option \<Rightarrow> 8 word" where
  "read_reply_bytes u rb = (case rb of None \<Rightarrow> unassigned_reply_bytes u | Some b \<Rightarrow> b)"

definition at_command :: "sim_state \<Rightarrow> string \<Rightarrow> sim_state" where
  "at_command st ATCommand =
     (if ATCommand = ''Z'' then replyOK (replyVersion (initSensors st))
      else if ATCommand = ''E0'' then replyNotImplemented st
      else if ATCommand = ''M0'' then replyNotImplemented st
      else if ATCommand = ''L0'' then replyNotImplemented st
      else if ATCommand = ''ST62'' then replyNotImplemented st
      else if ATCommand = ''S0'' then replyNotImplemented st
      else if ATCommand = ''H0'' then replyNotImplemented st
      else if ATCommand = ''H1'' then replyNotImplemented st
      else if ATCommand = ''AT1'' then replyNotImplemented st
      else if ATCommand = ''@1'' then replyDescription st
      else if ATCommand = ''I'' then replyVersion st
      else if ATCommand = ''SP0'' then replyNotImplemented st
      else if ATCommand = ''DPN'' then replyValue st ''1''
      else if ATCommand = ''RV'' then replyValue st ''12.5''
      else if ATCommand = ''PC'' then replyOK st
      else st)"

text \<open>\<open>processRequest\<close> takes its \<open>String\<close> by value and works on the copy.\<close>

definition processRequest :: "indeterminate \<Rightarrow> sim_state \<Rightarrow> string \<Rightarrow> sim_state" where
  "processRequest u st request_arg =
     (let request = String_copy request_arg in
      replyPrompt
       (if startsWith request MODE_01_REQ then
          (let pid = substring request 2;
               st1 = debug_println st (MODE_01_REQ @ pid);
               (reply_bytes, after_formula) = mode01_locals u st1 pid
           in replyOBD2 st1 MODE_01_RSP pid
                (read_after_formula u after_formula) (read_reply_bytes u reply_bytes))
        else if startsWith request MODE_21_REQ then
          (let pid = substring request 2;
               st1 = debug_println st (MODE_21_REQ @ pid);
               (reply_bytes, after_formula) = mode21_locals st1 pid
           in replyOBD2 st1 MODE_21_RSP pid
                (read_after_formula u after_formula) (read_reply_bytes u reply_bytes))
        else if startsWith request AT_REQ then
          (let ATCommand = substring request 2;
               st1 = debug_println st (AT_REQ @ ATCommand)
           in at_command st1 ATCommand)
        else st))"

subsection \<open>loop\<close>

text \<open>
  What \<open>loop\<close> does with the character it read and the buffer: the line it hands to
  \<open>processRequest\<close>, if any, and the buffer afterwards.
\<close>

definition loop_lexer :: "char \<Rightarrow> string \<Rightarrow> string option \<times> string" where
  "loop_lexer c buf =
     (if (c = LF \<or> c = CR) \<and> length buf > 0 then (Some (toUpperCase buf), [])
      else if c \<noteq> SPACE \<and> c \<noteq> LF \<and> c \<noteq> CR then (None, buf @ [c])
      else (None, buf))"

definition loop :: "indeterminate \<Rightarrow> cycle_input \<Rightarrow> sim_state \<Rightarrow> sim_state" where
  "loop u inp st =
     (let st1 = updateSensorValues u inp st
      in case BtSerial_read inp of
           None \<Rightarrow> st1
         | Some c \<Rightarrow>
             (case loop_lexer c (OBDRequest st1) of
                (Some request, buf) \<Rightarrow>
                  (processRequest u (st1\<lparr>OBDRequest := request\<rparr>) request)\<lparr>OBDRequest := buf\<rparr>
              | (None, buf) \<Rightarrow> st1\<lparr>OBDRequest := buf\<rparr>))"

text \<open>The lines a stream of characters makes \<open>loop\<close> dispatch, and the buffer left.\<close>

fun lex_stream :: "string \<Rightarrow> string \<Rightarrow> string list \<times> string" where
  "lex_stream buf [] = ([], buf)"
| "lex_stream buf (c # cs) =
     (case loop_lexer c buf of
        (Some request, buf1) \<Rightarrow> (let (ls, b) = lex_stream buf1 cs in (request # ls, b))
      | (None, buf1) \<Rightarrow> lex_stream buf1 cs)"

text \<open>\<open>loop\<close> run once for each input of a list.\<close>

fun run_loop :: "indeterminate \<Rightarrow> cycle_input list \<Rightarrow> sim_state \<Rightarrow> sim_state" where
  "run_loop u [] st = st"
| "run_loop u (inp # inps) st = run_loop u inps (loop u inp st)"

subsection \<open>Sample inputs\<close>

text \<open>
  A pass of \<open>loop\<close> one second after power-on, with the given character (or none)
  waiting on the port; and the variables after \<open>setup\<close> and one refresh.
\<close>

definition cycle0 :: "char option \<Rightarrow> cycle_input" where
  "cycle0 c = \<lparr>micros_elapsed = 1000000, micros_reset = 1000004, analogRead_5 = 0,
               BtSerial_read = c\<rparr>"

definition refreshed :: sim_state where
  "refreshed = updateSensorValues no_junk (cycle0 None) (sketch_setup power_on)"


section \<open>Properties\<close>

lemmas const_defs =
  DEVICE_DESCRIPTION_def VERSION_def OK_def PROMPT_def CR_def LF_def SPACE_def
  AT_REQ_def MODE_01_REQ_def MODE_21_REQ_def MODE_01_RSP_def MODE_21_RSP_def
  MODE_1_SUPPORTED_PIDS_def MODE_1_ENG_COOLANT_TEMP_def MODE_1_IN_MANIFLD_PRESS_ABS_def
  MODE_1_ENG_RPM_def MODE_1_VEHICLE_SPEED_def MODE_1_FUEL_TANK_LVL_IN_def
  MODE_1_AMBIENT_AIR_TEMP_def MODE_1_ENG_OIL_TEMP_def SERIAL_DEBUG_def

subsection \<open>Hexadecimal numerals and padding\<close>

lemma floor_rat_numeral_div: "\<lfloor>numeral a / numeral b :: rat\<rfloor> = numeral a div numeral b"
  using floor_divide_of_int_eq [of "numeral a" "numeral b", where ?'a = rat] by simp

lemma pad_loop_replicate:
  "value_hex_len = int (length value_hex) \<Longrightarrow>
   pad_loop width value_hex value_hex_len =
     replicate (nat (width - value_hex_len)) (CHR ''0'') @ value_hex"
proof (induction width value_hex value_hex_len rule: pad_loop.induct)
  case (1 width value_hex value_hex_len)
  show ?case
  proof (cases "width - value_hex_len > 0")
    case True
    then have "pad_loop width value_hex value_hex_len =
        replicate (nat (width - (value_hex_len + 1))) (CHR ''0'') @ ''0'' @ value_hex"
      using "1.IH" "1.prems" by (subst pad_loop.simps) simp
    also have "\<dots> = replicate (Suc (nat (width - (value_hex_len + 1)))) (CHR ''0'') @ value_hex"
      by (simp add: replicate_app_Cons_same)
    also have "Suc (nat (width - (value_hex_len + 1))) = nat (width - value_hex_len)"
      using True by simp
    finally show ?thesis .
  next
    case False
    then show ?thesis by (subst pad_loop.simps) simp
  qed
qed

lemma ultoa_hex_nonempty: "ultoa_hex n \<noteq> []"
  by (subst ultoa_hex.simps) simp


lemma hex_digit_val_table:
  "map (\<lambda>d. hex_digit_val (hex_digit d)) [0..<16] = [0..<16]"
  by (simp add: upt_rec [of _ 16] hex_digit_val_def hex_digit_def)

lemma hex_digit_val_hex_digit:
  assumes "d < 16"
  shows "hex_digit_val (hex_digit d) = d"
proof -
  have "map (\<lambda>d. hex_digit_val (hex_digit d)) [0..<16] ! d = [0..<16] ! d"
    by (simp only: hex_digit_val_table)
  with assms show ?thesis by simp
qed

lemma hex_val_snoc: "hex_val (s @ [c]) = 16 * hex_val s + hex_digit_val c"
  by (simp add: hex_val_def)

lemma hex_val_ultoa_hex: "hex_val (ultoa_hex n) = n"
proof (induction n rule: ultoa_hex.induct)
  case (1 n)
  show ?case
  proof (cases "n < 16")
    case True
    then show ?thesis
      by (subst ultoa_hex.simps) (simp add: hex_val_def hex_digit_val_hex_digit)
  next
    case False
    then have "hex_val (ultoa_hex n) = 16 * (n div 16) + n mod 16"
      using "1.IH" by (subst ultoa_hex.simps) (simp add: hex_val_snoc hex_digit_val_hex_digit)
    then show ?thesis by simp
  qed
qed

lemma hex_val_zeros: "hex_val (replicate k (CHR ''0'') @ s) = hex_val s"
proof -
  have "foldl (\<lambda>acc c. 16 * acc + hex_digit_val c) 0 (replicate k (CHR ''0'')) = 0"
    by (induction k) (simp_all add: hex_digit_val_def)
  then show ?thesis by (simp add: hex_val_def)
qed

lemma hex_digit_not_zero:
  assumes "0 < d" and "d < 16"
  shows "hex_digit d \<noteq> CHR ''0''"
proof
  assume "hex_digit d = CHR ''0''"
  then have "hex_digit_val (hex_digit d) = hex_digit_val (CHR ''0'')" by simp
  then have "d = 0"
    using assms(2) by (simp add: hex_digit_val_hex_digit) (simp add: hex_digit_val_def)
  with assms(1) show False by simp
qed

lemma hd_ultoa_hex: "0 < n \<Longrightarrow> hd (ultoa_hex n) \<noteq> CHR ''0''"
proof (induction n rule: ultoa_hex.induct)
  case (1 n)
  show ?case
  proof (cases "n < 16")
    case True
    with "1.prems" have "hex_digit n \<noteq> CHR ''0''" by (intro hex_digit_not_zero)
    with True show ?thesis
      by (subst ultoa_hex.simps) simp
  next
    case False
    then have "0 < n div 16" by simp
    with False "1.IH" have "hd (ultoa_hex (n div 16)) \<noteq> CHR ''0''" by simp
    with False show ?thesis
      by (subst ultoa_hex.simps) (simp add: ultoa_hex_nonempty)
  qed
qed

lemma toHexReply_short:
  assumes "width \<le> 4" and "int (length (String_HEX v)) \<le> 2 * width"
  shows "toHexReply v width =
           replicate (nat (2 * width - int (length (String_HEX v)))) (CHR ''0'') @ String_HEX v"
  using assms by (simp add: toHexReply_def MAX_REPLY_LEN_def pad_loop_replicate mult.commute Let_def)

lemma toHexReply_long:
  assumes "2 * width < int (length (String_HEX v))"
  shows "toHexReply v width = String_HEX v"
proof (cases "width \<le> 4")
  case True
  have "pad_loop (width * 2) (String_HEX v) (int (length (String_HEX v))) = String_HEX v"
    using assms by (subst pad_loop.simps) simp
  with True show ?thesis by (simp add: toHexReply_def MAX_REPLY_LEN_def)
next
  case False
  then show ?thesis by (simp add: toHexReply_def MAX_REPLY_LEN_def)
qed

lemma length_toHexReply_short:
  assumes "width \<le> 4" and "int (length (String_HEX v)) \<le> 2 * width"
  shows "int (length (toHexReply v width)) = 2 * width"
  using assms by (simp add: toHexReply_short)



lemma hex_val_toHexReply: "hex_val (toHexReply v width) = unat v"
proof (cases "width \<le> 4")
  case True
  then have "toHexReply v width =
      replicate (nat (width * 2 - int (length (String_HEX v)))) (CHR ''0'') @ String_HEX v"
    by (simp add: toHexReply_def MAX_REPLY_LEN_def pad_loop_replicate Let_def)
  then show ?thesis
    by (simp add: hex_val_zeros String_HEX_def hex_val_ultoa_hex)
next
  case False
  then show ?thesis
    by (simp add: toHexReply_def MAX_REPLY_LEN_def String_HEX_def hex_val_ultoa_hex)
qed

text \<open>
  C3. For every value and every width from 1 to 4, \<open>toHexReply\<close> returns the base-16
  numeral of the value (\<open>String_HEX\<close>: it denotes the value and has no leading zero),
  with zeros in front up to exactly 2 \<times> width characters when the numeral is no longer
  than that, and the numeral itself, nothing cut and nothing refused, when it is longer.
\<close>

theorem toHexReply_pads_or_keeps:
  "1 \<le> width \<Longrightarrow> width \<le> 4 \<Longrightarrow>
     hex_val (String_HEX v) = unat v \<and>
     (v \<noteq> 0 \<longrightarrow> hd (String_HEX v) \<noteq> CHR ''0'') \<and>
     (int (length (String_HEX v)) \<le> 2 * width \<longrightarrow>
        toHexReply v width =
          replicate (nat (2 * width - int (length (String_HEX v)))) (CHR ''0'') @ String_HEX v
        \<and> int (length (toHexReply v width)) = 2 * width) \<and>
     (2 * width < int (length (String_HEX v)) \<longrightarrow> toHexReply v width = String_HEX v)"
proof (intro conjI impI)
  show "hex_val (String_HEX v) = unat v"
    by (simp add: String_HEX_def hex_val_ultoa_hex)
  show "hd (String_HEX v) \<noteq> CHR ''0''" if "v \<noteq> 0"
    using that by (simp add: String_HEX_def hd_ultoa_hex unat_gt_0)
next
  assume "width \<le> 4" and "int (length (String_HEX v)) \<le> 2 * width"
  then show "toHexReply v width =
      replicate (nat (2 * width - int (length (String_HEX v)))) (CHR ''0'') @ String_HEX v"
    and "int (length (toHexReply v width)) = 2 * width"
    by (rule toHexReply_short, rule length_toHexReply_short)
next
  assume "2 * width < int (length (String_HEX v))"
  then show "toHexReply v width = String_HEX v"
    by (rule toHexReply_long)
qed

lemma String_HEX_226: "String_HEX 226 = ''e2''"
  by (simp add: String_HEX_def ultoa_hex.simps hex_digit_def)

lemma String_HEX_80000: "String_HEX 80000 = ''13880''"
  by (simp add: String_HEX_def ultoa_hex.simps hex_digit_def)

lemma String_HEX_5: "String_HEX 5 = ''5''"
  by (simp add: String_HEX_def ultoa_hex.simps hex_digit_def)

theorem toHexReply_pads_or_keeps_witness:
  "toHexReply 5 1 = ''05'' \<and> toHexReply 226 1 = ''e2'' \<and> toHexReply 80000 2 = ''13880''
   \<and> hex_val ''13880'' = 80000"
  using toHexReply_pads_or_keeps [of 1 5] toHexReply_pads_or_keeps [of 1 226]
    toHexReply_pads_or_keeps [of 2 80000]
  by (simp add: String_HEX_226 String_HEX_80000 String_HEX_5)

subsection \<open>C strings\<close>

lemma c_str_no_NUL: "NUL \<notin> set s \<Longrightarrow> c_str s = s"
  by (auto simp: c_str_def)

lemma NUL_notin_c_str: "NUL \<notin> set (c_str s)"
  unfolding c_str_def by (induction s) auto

lemma c_str_idem: "c_str (c_str s) = c_str s"
  by (simp add: c_str_no_NUL NUL_notin_c_str)

lemma c_str_append: "NUL \<notin> set p \<Longrightarrow> c_str (p @ s) = p @ c_str s"
  unfolding c_str_def by (rule takeWhile_append2) auto

lemma toupper_NUL: "toupper c = NUL \<longleftrightarrow> c = NUL"
proof
  assume a: "toupper c = NUL"
  show "c = NUL"
  proof (cases "97 \<le> (of_char c :: nat) \<and> (of_char c :: nat) \<le> 122")
    case True
    then have "(of_char (toupper c) :: nat) = ((of_char c :: nat) - 32) mod 256"
      by (simp add: toupper_def of_char_of)
    also have "\<dots> = (of_char c :: nat) - 32"
      using True by (intro mod_less) linarith
    finally have "(of_char (toupper c) :: nat) \<noteq> 0"
      using True by simp
    with a show ?thesis by (simp add: NUL_def)
  next
    case False
    with a show ?thesis by (simp add: toupper_def)
  qed
next
  assume "c = NUL"
  then show "toupper c = NUL" by (simp add: toupper_def NUL_def)
qed

lemma c_str_map_toupper: "c_str (map toupper s) = map toupper (c_str s)"
  unfolding c_str_def by (induction s) (simp_all add: toupper_NUL)

lemma c_str_toUpperCase: "c_str (toUpperCase s) = map toupper (c_str s)"
proof -
  have n: "NUL \<notin> set (map toupper (c_str s))"
    using NUL_notin_c_str [of s] by (auto simp: toupper_NUL eq_commute [of NUL])
  have "drop (length (c_str s)) s = [] \<or> hd (drop (length (c_str s)) s) = NUL"
    unfolding c_str_def
    by (metis (mono_tags, lifting) dropWhile_eq_drop dropWhile_eq_Nil_conv hd_dropWhile)
  then have "c_str (drop (length (c_str s)) s) = []"
    by (cases "drop (length (c_str s)) s") (auto simp: c_str_def)
  then show ?thesis
    by (simp add: toUpperCase_def c_str_append [OF n])
qed

lemma toUpperCase_no_NUL: "NUL \<notin> set s \<Longrightarrow> toUpperCase s = map toupper s"
  by (simp add: toUpperCase_def c_str_no_NUL)

lemma startsWith_c_str:
  assumes "NUL \<notin> set p"
  shows "startsWith (c_str s) p \<longleftrightarrow> startsWith s p"
proof
  assume "startsWith s p"
  then have "s = p @ drop (length p) s"
    by (metis append_take_drop_id startsWith_def)
  then have "c_str s = p @ c_str (drop (length p) s)"
    using c_str_append [OF assms] by metis
  then show "startsWith (c_str s) p" by (simp add: startsWith_def)
next
  assume a: "startsWith (c_str s) p"
  have "s = c_str s @ dropWhile (\<lambda>c. c \<noteq> NUL) s"
    by (simp add: c_str_def)
  then have "take (length p) s = take (length p) (c_str s) @ take (length p - length (c_str s)) (dropWhile (\<lambda>c. c \<noteq> NUL) s)"
    by (metis take_append)
  moreover have "length p \<le> length (c_str s)"
    using a by (metis startsWith_def length_take min.cobounded2 min_def nat_le_linear take_all)
  ultimately show "startsWith s p"
    using a by (simp add: startsWith_def)
qed

lemma String_copy_no_NUL: "NUL \<notin> set s \<Longrightarrow> String_copy s = s"
  by (simp add: String_copy_def c_str_no_NUL)

lemma substring_String_copy: "substring (String_copy s) n = drop n (c_str s)"
proof -
  have "NUL \<notin> set (drop n (c_str s))"
    using NUL_notin_c_str [of s] by (meson in_set_dropD)
  then show ?thesis
    by (simp add: substring_def String_copy_def c_str_no_NUL)
qed

lemma substring_no_NUL: "NUL \<notin> set s \<Longrightarrow> substring s n = drop n s"
proof -
  assume "NUL \<notin> set s"
  then have "NUL \<notin> set (drop n s)" by (meson in_set_dropD)
  then show ?thesis by (simp add: substring_def c_str_no_NUL)
qed

lemma startsWith_String_copy:
  "NUL \<notin> set p \<Longrightarrow> startsWith (String_copy s) p \<longleftrightarrow> startsWith s p"
  by (simp add: String_copy_def startsWith_c_str)

lemma processRequest_String_copy:
  "processRequest u st (String_copy r) = processRequest u st r"
  by (simp add: processRequest_def String_copy_def c_str_idem)

subsection \<open>processRequest\<close>

lemma replyValue_eq: "replyValue st v = st\<lparr>BtSerial := BtSerial st @ [v]\<rparr>"
  by (simp add: replyValue_def SERIAL_DEBUG_def)

lemma replyOBD2_eq:
  "replyOBD2 st m pid v b = st\<lparr>BtSerial := BtSerial st @ [m @ pid @ toHexReply v (uint b)]\<rparr>"
  by (simp add: replyOBD2_def SERIAL_DEBUG_def)

lemma debug_println_eq: "debug_println st l = st"
  by (simp add: debug_println_def SERIAL_DEBUG_def)

lemma processRequest_mode01:
  assumes "startsWith (String_copy r) ''01''"
  shows "processRequest u st r =
     st\<lparr>BtSerial := BtSerial st @
        [''41'' @ substring (String_copy r) 2
           @ toHexReply
               (read_after_formula u (snd (mode01_locals u st (substring (String_copy r) 2))))
               (uint (read_reply_bytes u (fst (mode01_locals u st (substring (String_copy r) 2))))),
         ''>'']\<rparr>"
  using assms
  by (simp add: processRequest_def MODE_01_REQ_def MODE_01_RSP_def
      debug_println_eq replyOBD2_eq replyPrompt_def replyValue_eq PROMPT_def split_beta Let_def)

lemma prefixes_exclude:
  "startsWith s ''21'' \<Longrightarrow> \<not> startsWith s ''01''"
  "startsWith s ''AT'' \<Longrightarrow> \<not> startsWith s ''01''"
  "startsWith s ''AT'' \<Longrightarrow> \<not> startsWith s ''21''"
  by (auto simp: startsWith_def)

lemma processRequest_mode21:
  assumes "startsWith (String_copy r) ''21''"
  shows "processRequest u st r =
     st\<lparr>BtSerial := BtSerial st @
        [''61'' @ substring (String_copy r) 2
           @ toHexReply
               (read_after_formula u (snd (mode21_locals st (substring (String_copy r) 2))))
               (uint (read_reply_bytes u (fst (mode21_locals st (substring (String_copy r) 2))))),
         ''>'']\<rparr>"
  using assms prefixes_exclude(1) [OF assms]
  by (simp add: processRequest_def MODE_01_REQ_def MODE_21_REQ_def MODE_21_RSP_def
      debug_println_eq replyOBD2_eq replyPrompt_def replyValue_eq PROMPT_def split_beta Let_def)

lemma processRequest_AT:
  assumes "startsWith (String_copy r) ''AT''"
  shows "processRequest u st r = replyPrompt (at_command st (substring (String_copy r) 2))"
  using assms prefixes_exclude(2,3) [OF assms]
  by (simp add: processRequest_def MODE_01_REQ_def MODE_21_REQ_def AT_REQ_def debug_println_eq
      Let_def)

lemma processRequest_other:
  assumes "\<not> startsWith (String_copy r) ''01''" and "\<not> startsWith (String_copy r) ''21''"
    and "\<not> startsWith (String_copy r) ''AT''"
  shows "processRequest u st r = replyPrompt st"
  using assms
  by (simp add: processRequest_def MODE_01_REQ_def MODE_21_REQ_def AT_REQ_def Let_def)

lemma at_command_appends: "\<exists>ls. BtSerial (at_command st cmd) = BtSerial st @ ls"
  by (simp add: at_command_def replyOK_def replyVersion_def replyNotImplemented_def
      replyDescription_def replyValue_eq initSensors_def)

lemma toHexReply_0_1: "toHexReply 0 1 = ''00''"
  by (simp add: toHexReply_def String_HEX_def MAX_REPLY_LEN_def ultoa_hex.simps pad_loop.simps
      hex_digit_def)

lemma double_to_ulong_0: "double_to_ulong u 0 = 0"
  by (simp add: double_to_ulong_def trunc_def)

lemmas String_eval = String_copy_def c_str_def NUL_def substring_def startsWith_def

text \<open>
  C4. A request line that starts with none of 01, 21 and AT changes nothing but the
  port, on which the prompt is the only line printed; and whatever the request line,
  \<open>processRequest\<close> prints its lines after those already on the port and the prompt
  is the last of them.
\<close>

theorem unrecognized_prefix_only_prompt:
  "(\<not> startsWith request ''01'' \<and> \<not> startsWith request ''21'' \<and> \<not> startsWith request ''AT''
      \<longrightarrow> processRequest u st request = st\<lparr>BtSerial := BtSerial st @ [''>'']\<rparr>)
   \<and> (\<exists>ls. BtSerial (processRequest u st request) = BtSerial st @ ls @ [''>''])"
proof (intro conjI impI)
  assume "\<not> startsWith request ''01'' \<and> \<not> startsWith request ''21'' \<and> \<not> startsWith request ''AT''"
  then have "\<not> startsWith (String_copy request) ''01''"
    "\<not> startsWith (String_copy request) ''21''" "\<not> startsWith (String_copy request) ''AT''"
    by (simp_all add: startsWith_String_copy NUL_def)
  then show "processRequest u st request = st\<lparr>BtSerial := BtSerial st @ [''>'']\<rparr>"
    by (simp add: processRequest_other replyPrompt_def replyValue_eq PROMPT_def)
next
  consider (m01) "startsWith (String_copy request) ''01''"
    | (m21) "startsWith (String_copy request) ''21''"
    | (at) "startsWith (String_copy request) ''AT''"
    | (other) "\<not> startsWith (String_copy request) ''01''"
        "\<not> startsWith (String_copy request) ''21''" "\<not> startsWith (String_copy request) ''AT''"
    by blast
  then show "\<exists>ls. BtSerial (processRequest u st request) = BtSerial st @ ls @ [''>'']"
  proof cases
    case m01
    show ?thesis unfolding processRequest_mode01 [OF m01] by simp
  next
    case m21
    show ?thesis unfolding processRequest_mode21 [OF m21] by simp
  next
    case at
    obtain ls where "BtSerial (at_command st (substring (String_copy request) 2)) = BtSerial st @ ls"
      using at_command_appends by blast
    then show ?thesis
      unfolding processRequest_AT [OF at] by (simp add: replyPrompt_def replyValue_eq PROMPT_def)
  next
    case other
    then have "BtSerial (processRequest u st request) = BtSerial st @ [] @ [''>'']"
      by (simp add: processRequest_other replyPrompt_def replyValue_eq PROMPT_def)
    then show ?thesis by blast
  qed
qed

theorem unrecognized_prefix_only_prompt_witness:
  "\<not> startsWith ''99AA'' ''01'' \<and> \<not> startsWith ''99AA'' ''21'' \<and> \<not> startsWith ''99AA'' ''AT''
   \<and> BtSerial (processRequest no_junk power_on ''99AA'') = [''>'']"
  using unrecognized_prefix_only_prompt [of "''99AA''" no_junk power_on]
  by (simp add: startsWith_def power_on_def)

text \<open>
  C6. The request ATZ sets the pulse count, \<open>rpm\<close> and the time reference back to
  zero (and ties the interrupt handler to the pin again), and prints exactly the
  version string, then OK, then the prompt.
\<close>

theorem ATZ_resets_and_replies_version_OK:
  "processRequest u st ''ATZ'' =
     st\<lparr>rpm_pulse_count := 0, rpm := 0, time_old := 0, rpm_interrupt := True,
        BtSerial := BtSerial st @ [''OBDII Arduino Simulator v1.0'', ''OK'', ''>'']\<rparr>"
proof -
  have "processRequest u st ''ATZ'' = replyPrompt (at_command st (substring (String_copy ''ATZ'') 2))"
    by (rule processRequest_AT) (simp add: String_eval)
  then show ?thesis
    by (simp add: String_eval at_command_def replyOK_def replyVersion_def replyPrompt_def
        replyValue_eq initSensors_def VERSION_def DEVICE_DESCRIPTION_def OK_def PROMPT_def)
qed

theorem ATZ_resets_and_replies_version_OK_witness:
  "BtSerial (processRequest no_junk power_on ''ATZ'') =
     [''OBDII Arduino Simulator v1.0'', ''OK'', ''>'']
   \<and> rpm_pulse_count (processRequest no_junk (onRpm power_on) ''ATZ'') = 0"
  using ATZ_resets_and_replies_version_OK [of no_junk power_on]
    ATZ_resets_and_replies_version_OK [of no_junk "onRpm power_on"]
  by (simp add: power_on_def onRpm_def)

text \<open>
  C7. A mode-01 request whose PID is none of 00, 05, 0B, 0C, 0D, 2F, 46 and 5C is
  answered with the line 41, the PID and the payload 00 (zero at a width of one
  byte), then the prompt; nothing else changes. The request is the copy that
  \<open>processRequest\<close> works on and the PID what \<open>substring\<close> takes from it: for a line
  without a NUL character, the line itself and its characters from the third on.
\<close>

theorem unknown_mode01_pid_replies_zero:
  assumes "startsWith (String_copy request) ''01''"
    and "substring (String_copy request) 2
           \<notin> {''00'', ''05'', ''0B'', ''0C'', ''0D'', ''2F'', ''46'', ''5C''}"
  shows "processRequest u st request =
           st\<lparr>BtSerial := BtSerial st @
              [''41'' @ substring (String_copy request) 2 @ ''00'', ''>'']\<rparr>
         \<and> (NUL \<notin> set request \<longrightarrow>
               String_copy request = request \<and> substring (String_copy request) 2 = drop 2 request)"
proof -
  let ?pid = "substring (String_copy request) 2"
  have "mode01_locals u st ?pid = (Some 1, Some 0)"
    using assms(2) by (simp add: mode01_locals_def const_defs)
  then have "toHexReply (read_after_formula u (snd (mode01_locals u st ?pid)))
               (uint (read_reply_bytes u (fst (mode01_locals u st ?pid)))) = ''00''"
    by (simp add: read_after_formula_def read_reply_bytes_def double_to_ulong_0 toHexReply_0_1)
  then have "processRequest u st request =
      st\<lparr>BtSerial := BtSerial st @ [''41'' @ ?pid @ ''00'', ''>'']\<rparr>"
    unfolding processRequest_mode01 [OF assms(1)] by simp
  moreover have "NUL \<notin> set request \<longrightarrow> String_copy request = request \<and> ?pid = drop 2 request"
    by (simp add: String_copy_no_NUL substring_no_NUL)
  ultimately show ?thesis by blast
qed

theorem unknown_mode01_pid_replies_zero_witness:
  "startsWith (String_copy ''01FF'') ''01''
   \<and> substring (String_copy ''01FF'') 2
        \<notin> {''00'', ''05'', ''0B'', ''0C'', ''0D'', ''2F'', ''46'', ''5C''}
   \<and> NUL \<notin> set ''01FF''
   \<and> BtSerial (processRequest no_junk power_on ''01FF'') = [''41FF00'', ''>'']"
  using unknown_mode01_pid_replies_zero [of "''01FF''" no_junk power_on]
  by (simp add: String_eval power_on_def)

text \<open>
  C8. Each of the control tokens E0, M0, L0, ST62, S0, H0, H1, AT1 and SP0 is answered
  with OK and the prompt, exactly as the implemented command PC is, and no variable of
  the simulator changes.
\<close>

theorem unimplemented_control_acknowledged:
  assumes "tok \<in> {''E0'', ''M0'', ''L0'', ''ST62'', ''S0'', ''H0'', ''H1'', ''AT1'', ''SP0''}"
  shows "processRequest u st (''AT'' @ tok) = st\<lparr>BtSerial := BtSerial st @ [''OK'', ''>'']\<rparr>
         \<and> processRequest u st (''AT'' @ tok) = processRequest u st ''ATPC''"
proof -
  have "processRequest u st ''ATPC'' = replyPrompt (at_command st (substring (String_copy ''ATPC'') 2))"
    by (rule processRequest_AT) (simp add: String_eval)
  then have pc: "processRequest u st ''ATPC'' = st\<lparr>BtSerial := BtSerial st @ [''OK'', ''>'']\<rparr>"
    by (simp add: String_eval at_command_def replyOK_def replyPrompt_def replyValue_eq OK_def
        PROMPT_def)
  have n: "NUL \<notin> set (''AT'' @ tok)"
    using assms by (elim insertE emptyE) (simp_all add: NUL_def)
  then have c: "String_copy (''AT'' @ tok) = ''AT'' @ tok"
    by (rule String_copy_no_NUL)
  have "NUL \<notin> set tok" using n by simp
  then have s: "substring (String_copy (''AT'' @ tok)) 2 = tok"
    unfolding c by (simp add: substring_def c_str_no_NUL)
  have "processRequest u st (''AT'' @ tok)
          = replyPrompt (at_command st (substring (String_copy (''AT'' @ tok)) 2))"
    by (rule processRequest_AT) (unfold c, simp add: startsWith_def)
  moreover have "at_command st tok = st\<lparr>BtSerial := BtSerial st @ [''OK'']\<rparr>"
    using assms
    by (elim insertE emptyE)
      (simp_all add: at_command_def replyNotImplemented_def replyOK_def replyValue_eq OK_def)
  ultimately have "processRequest u st (''AT'' @ tok)
      = st\<lparr>BtSerial := BtSerial st @ [''OK'', ''>'']\<rparr>"
    unfolding s by (simp add: replyPrompt_def replyValue_eq PROMPT_def)
  with pc show ?thesis by simp
qed

theorem unimplemented_control_acknowledged_witness:
  "''ST62'' \<in> {''E0'', ''M0'', ''L0'', ''ST62'', ''S0'', ''H0'', ''H1'', ''AT1'', ''SP0''}
   \<and> BtSerial (processRequest no_junk power_on ''ATST62'') = [''OK'', ''>'']
   \<and> BtSerial (processRequest no_junk power_on ''ATE0'') = [''OK'', ''>'']"
  using unimplemented_control_acknowledged [of "''ST62''" no_junk power_on]
    unimplemented_control_acknowledged [of "''E0''" no_junk power_on]
  by (simp add: power_on_def)

text \<open>
  C10. A mode-21 request whose sub-identifier is none of 13, 14 and 15 leaves the locals
  \<open>reply_bytes\<close> and \<open>after_formula\<close> unassigned, and \<open>replyOBD2\<close> is called all the
  same: the line printed is 61, the sub-identifier and the hexadecimal reply made of
  whatever the two unassigned locals hold, then the prompt. The request is the copy
  that \<open>processRequest\<close> works on and the sub-identifier what \<open>substring\<close> takes from
  it: for a line without a NUL character, the line itself and its characters from the
  third on.
\<close>

theorem unknown_mode21_pid_reads_unassigned_locals:
  assumes "startsWith (String_copy request) ''21''"
    and "substring (String_copy request) 2 \<notin> {''13'', ''14'', ''15''}"
  shows "mode21_locals st (substring (String_copy request) 2) = (None, None)
         \<and> processRequest u st request =
             st\<lparr>BtSerial := BtSerial st @
                [''61'' @ substring (String_copy request) 2
                   @ toHexReply (unassigned_after_formula u) (uint (unassigned_reply_bytes u)),
                 ''>'']\<rparr>
         \<and> (NUL \<notin> set request \<longrightarrow>
               String_copy request = request \<and> substring (String_copy request) 2 = drop 2 request)"
proof -
  let ?pid = "substring (String_copy request) 2"
  have l: "mode21_locals st ?pid = (None, None)"
    using assms(2) by (simp add: mode21_locals_def)
  then have "toHexReply (read_after_formula u (snd (mode21_locals st ?pid)))
               (uint (read_reply_bytes u (fst (mode21_locals st ?pid))))
             = toHexReply (unassigned_after_formula u) (uint (unassigned_reply_bytes u))"
    by (simp add: read_after_formula_def read_reply_bytes_def)
  then have "processRequest u st request =
      st\<lparr>BtSerial := BtSerial st @
         [''61'' @ ?pid @ toHexReply (unassigned_after_formula u) (uint (unassigned_reply_bytes u)),
          ''>'']\<rparr>"
    unfolding processRequest_mode21 [OF assms(1)] by simp
  moreover have "NUL \<notin> set request \<longrightarrow> String_copy request = request \<and> ?pid = drop 2 request"
    by (simp add: String_copy_no_NUL substring_no_NUL)
  ultimately show ?thesis using l by blast
qed

lemma toHexReply_beef_3: "toHexReply 48879 3 = ''00beef''"
  by (simp add: toHexReply_def String_HEX_def MAX_REPLY_LEN_def ultoa_hex.simps pad_loop.simps
      hex_digit_def)

theorem unknown_mode21_pid_reads_unassigned_locals_witness:
  "startsWith (String_copy ''2199'') ''21''
   \<and> substring (String_copy ''2199'') 2 \<notin> {''13'', ''14'', ''15''}
   \<and> NUL \<notin> set ''2199''
   \<and> BtSerial (processRequest
        (no_junk\<lparr>unassigned_after_formula := 48879, unassigned_reply_bytes := 3\<rparr>)
        power_on ''2199'') = [''619900beef'', ''>'']"
  using unknown_mode21_pid_reads_unassigned_locals
    [of "''2199''" power_on "no_junk\<lparr>unassigned_after_formula := 48879, unassigned_reply_bytes := 3\<rparr>"]
  by (simp add: String_eval power_on_def no_junk_def toHexReply_beef_3)

subsection \<open>loop\<close>

lemma updateSensorValues_keeps_ports:
  "OBDRequest (updateSensorValues u inp st) = OBDRequest st"
  "BtSerial (updateSensorValues u inp st) = BtSerial st"
  "Serial (updateSensorValues u inp st) = Serial st"
  by (simp_all add: updateSensorValues_def Let_def)

lemma loop_lexer_other:
  "c \<noteq> SPACE \<Longrightarrow> c \<noteq> CR \<Longrightarrow> c \<noteq> LF \<Longrightarrow> loop_lexer c buf = (None, buf @ [c])"
  by (simp add: loop_lexer_def)

lemma loop_lexer_space: "loop_lexer SPACE buf = (None, buf)"
  by (simp add: loop_lexer_def SPACE_def CR_def LF_def)

lemma loop_lexer_flush:
  "c = CR \<or> c = LF \<Longrightarrow> buf \<noteq> [] \<Longrightarrow> loop_lexer c buf = (Some (toUpperCase buf), [])"
  by (auto simp: loop_lexer_def)

lemma loop_lexer_empty: "c = CR \<or> c = LF \<Longrightarrow> loop_lexer c [] = (None, [])"
  by (auto simp: loop_lexer_def)

lemma lex_stream_no_terminator:
  "set cs \<inter> {CR, LF} = {} \<Longrightarrow>
   lex_stream buf cs = ([], buf @ filter (\<lambda>c. c \<noteq> SPACE) cs)"
proof (induction cs arbitrary: buf)
  case Nil
  then show ?case by simp
next
  case (Cons c cs)
  then have c: "c \<noteq> CR" "c \<noteq> LF" and cs: "set cs \<inter> {CR, LF} = {}" by auto
  show ?case
  proof (cases "c = SPACE")
    case True
    then show ?thesis using Cons.IH [OF cs] by (simp add: loop_lexer_space)
  next
    case False
    then show ?thesis using c Cons.IH [OF cs] by (simp add: loop_lexer_other)
  qed
qed

lemma lex_stream_append:
  "lex_stream buf (cs @ ds) =
     (let (ls, b) = lex_stream buf cs; (ms, b') = lex_stream b ds in (ls @ ms, b'))"
proof (induction cs arbitrary: buf)
  case Nil
  then show ?case by simp
next
  case (Cons c cs)
  show ?case
    by (cases "loop_lexer c buf") (auto simp: Cons.IH split: option.splits prod.splits)
qed

lemma lex_stream_line:
  assumes "set cs \<inter> {CR, LF} = {}" and "t = CR \<or> t = LF"
  shows "lex_stream buf (cs @ [t]) =
           (if buf @ filter (\<lambda>c. c \<noteq> SPACE) cs = [] then ([], [])
            else ([toUpperCase (buf @ filter (\<lambda>c. c \<noteq> SPACE) cs)], []))"
proof (cases "buf @ filter (\<lambda>c. c \<noteq> SPACE) cs = []")
  case True
  then show ?thesis
    using assms
    by (simp add: lex_stream_append lex_stream_no_terminator loop_lexer_empty del: append_is_Nil_conv)
next
  case False
  then show ?thesis
    using assms
    by (simp add: lex_stream_append lex_stream_no_terminator loop_lexer_flush del: append_is_Nil_conv)
qed

lemma loop_uses_loop_lexer:
  "BtSerial_read inp = Some c \<Longrightarrow>
   loop u inp st =
     (case loop_lexer c (OBDRequest st) of
        (Some request, buf) \<Rightarrow>
          (processRequest u ((updateSensorValues u inp st)\<lparr>OBDRequest := request\<rparr>) request)
            \<lparr>OBDRequest := buf\<rparr>
      | (None, buf) \<Rightarrow> (updateSensorValues u inp st)\<lparr>OBDRequest := buf\<rparr>)"
  by (simp add: loop_def updateSensorValues_keeps_ports Let_def)

lemma toUpperCase_0105: "toUpperCase ''0105'' = ''0105''"
  by (simp add: toUpperCase_def c_str_def NUL_def toupper_def)

lemma String_copy_toUpperCase: "String_copy (toUpperCase s) = map toupper (c_str s)"
  by (simp add: String_copy_def c_str_toUpperCase)

lemma loop_dispatches_copy:
  "BtSerial_read inp = Some c \<Longrightarrow>
   loop u inp st =
     (case loop_lexer c (OBDRequest st) of
        (Some request, b) \<Rightarrow>
          (processRequest u ((updateSensorValues u inp st)\<lparr>OBDRequest := request\<rparr>)
             (String_copy request))
            \<lparr>OBDRequest := b\<rparr>
      | (None, b) \<Rightarrow> (updateSensorValues u inp st)\<lparr>OBDRequest := b\<rparr>)"
  by (simp add: loop_uses_loop_lexer processRequest_String_copy
      split: prod.splits option.splits)

text \<open>
  C2. \<open>loop\<close> puts every character that is not a space, a carriage return or a line
  feed at the end of its buffer; a space changes nothing; a carriage return or line
  feed on a non-empty buffer upper-cases the buffer up to its first NUL character,
  hands it over once and empties the buffer, and the line \<open>processRequest\<close> works on
  is the buffer before its first NUL character in upper case: the whole buffer in
  upper case when it holds no NUL character. On an empty buffer a carriage return or
  line feed does nothing. So a stream without terminators only fills the buffer, in
  arrival order, and such a stream followed by a terminator gives one line, or none if
  the buffer is still empty. The characters 0105 and a carriage return, with or
  without a space in front, give the single line 0105; a carriage return and a line
  feed on an empty buffer give no line.
\<close>

theorem loop_lexer_lines:
  "(c \<noteq> SPACE \<and> c \<noteq> CR \<and> c \<noteq> LF \<longrightarrow> loop_lexer c buf = (None, buf @ [c]))
   \<and> (c = SPACE \<longrightarrow> loop_lexer c buf = (None, buf))
   \<and> ((c = CR \<or> c = LF) \<and> buf \<noteq> [] \<longrightarrow> loop_lexer c buf = (Some (toUpperCase buf), []))
   \<and> String_copy (toUpperCase buf) = map toupper (c_str buf)
   \<and> (NUL \<notin> set buf \<longrightarrow> String_copy (toUpperCase buf) = map toupper buf)
   \<and> ((c = CR \<or> c = LF) \<longrightarrow> loop_lexer c [] = (None, []))
   \<and> (BtSerial_read inp = Some c \<longrightarrow>
        loop u inp st =
          (case loop_lexer c (OBDRequest st) of
             (Some request, b) \<Rightarrow>
               (processRequest u ((updateSensorValues u inp st)\<lparr>OBDRequest := request\<rparr>)
                  (String_copy request))
                 \<lparr>OBDRequest := b\<rparr>
           | (None, b) \<Rightarrow> (updateSensorValues u inp st)\<lparr>OBDRequest := b\<rparr>))
   \<and> (set cs \<inter> {CR, LF} = {} \<longrightarrow>
        lex_stream buf cs = ([], buf @ filter (\<lambda>c. c \<noteq> SPACE) cs))
   \<and> (set cs \<inter> {CR, LF} = {} \<and> (t = CR \<or> t = LF) \<longrightarrow>
        lex_stream buf (cs @ [t]) =
          (if buf @ filter (\<lambda>c. c \<noteq> SPACE) cs = [] then ([], [])
           else ([toUpperCase (buf @ filter (\<lambda>c. c \<noteq> SPACE) cs)], [])))
   \<and> lex_stream [] (''0105'' @ [CR]) = ([''0105''], [])
   \<and> lex_stream [] ('' 0105'' @ [CR]) = ([''0105''], [])
   \<and> lex_stream [] [CR, LF] = ([], [])"
proof (intro conjI impI)
  show "lex_stream [] (''0105'' @ [CR]) = ([''0105''], [])"
    by (subst lex_stream_line) (simp_all add: CR_def LF_def SPACE_def toUpperCase_0105)
  show "lex_stream [] ('' 0105'' @ [CR]) = ([''0105''], [])"
    by (subst lex_stream_line) (simp_all add: CR_def LF_def SPACE_def toUpperCase_0105)
  show "lex_stream [] [CR, LF] = ([], [])"
    by (simp add: loop_lexer_empty)
  show "String_copy (toUpperCase buf) = map toupper (c_str buf)"
    by (rule String_copy_toUpperCase)
  show "String_copy (toUpperCase buf) = map toupper buf" if "NUL \<notin> set buf"
    using that by (simp add: String_copy_toUpperCase c_str_no_NUL)
qed (simp_all add: loop_lexer_other loop_lexer_space loop_lexer_flush loop_lexer_empty
      loop_dispatches_copy lex_stream_no_terminator lex_stream_line
      del: append_is_Nil_conv)

theorem loop_lexer_lines_witness:
  "loop_lexer (CHR ''z'') ''at'' = (None, ''atz'')
   \<and> loop_lexer SPACE ''at'' = (None, ''at'')
   \<and> loop_lexer CR ''atz'' = (Some ''ATZ'', [])
   \<and> NUL \<notin> set ''atz'' \<and> String_copy (toUpperCase ''atz'') = ''ATZ''
   \<and> loop_lexer LF [] = (None, [])
   \<and> OBDRequest (loop no_junk (cycle0 (Some (CHR ''z''))) (power_on\<lparr>OBDRequest := ''at''\<rparr>)) = ''atz''
   \<and> lex_stream [] '' 01 0c'' = ([], ''010c'')
   \<and> lex_stream [] ('' 01 0c'' @ [LF]) = ([''010C''], [])"
  using
    loop_lexer_lines [where c = "CHR ''z''" and buf = "''at''" and inp = "cycle0 (Some (CHR ''z''))"
      and u = no_junk and st = "power_on\<lparr>OBDRequest := ''at''\<rparr>" and cs = "'' 01 0c''" and t = LF]
    loop_lexer_lines [where c = SPACE and buf = "''at''" and inp = "cycle0 (Some SPACE)"
      and u = no_junk and st = "power_on\<lparr>OBDRequest := ''at''\<rparr>" and cs = "[]" and t = LF]
    loop_lexer_lines [where c = CR and buf = "''atz''" and inp = "cycle0 (Some CR)"
      and u = no_junk and st = "power_on\<lparr>OBDRequest := ''atz''\<rparr>" and cs = "[]" and t = LF]
    loop_lexer_lines [where c = LF and buf = "[]" and inp = "cycle0 (Some LF)"
      and u = no_junk and st = "power_on" and cs = "[]" and t = LF]
  by (simp add: CR_def LF_def SPACE_def NUL_def cycle0_def power_on_def toUpperCase_def c_str_def
      toupper_def char_of_def bit_Suc_0_iff updateSensorValues_keeps_ports loop_lexer_def)

subsection \<open>The engine speed\<close>

lemma rpm_formula_nonzero:
  "elapsed \<noteq> 0 \<Longrightarrow> rpm_formula u elapsed p = ucast ((30000000 div elapsed) * ucast p)"
  by (simp add: rpm_formula_def)

lemma rpm_formula_unat:
  assumes "elapsed \<noteq> 0" and "(30000000 div unat elapsed) * unat p < 2 ^ 16"
  shows "unat (rpm_formula u elapsed p) = (30000000 div unat elapsed) * unat p"
proof -
  have q: "unat ((30000000 :: 32 word) div elapsed) = 30000000 div unat elapsed"
    by (simp add: unat_div)
  have "unat p < 2 ^ 8"
    using unsigned_less [of p, where ?'a = nat] by simp
  then have "unat p < 2 ^ 32" by simp
  then have p: "unat (ucast p :: 32 word) = unat p"
    by (simp add: unsigned_ucast_eq take_bit_nat_eq_self)
  have "(30000000 div unat elapsed) * unat p < 2 ^ 32"
    using assms(2) by simp
  then have m: "unat (((30000000 :: 32 word) div elapsed) * ucast p)
                  = (30000000 div unat elapsed) * unat p"
    using q p by (simp add: unat_mult_lem [THEN iffD1])
  have "unat (ucast (((30000000 :: 32 word) div elapsed) * ucast p) :: 16 word)
          = (30000000 div unat elapsed) * unat p"
    using m assms(2) by (simp add: unsigned_ucast_eq take_bit_nat_eq_self)
  then show ?thesis using assms(1) by (simp add: rpm_formula_nonzero)
qed

text \<open>A 16-bit word read as an \<open>int\<close>: itself below 32768, 65536 less from there on.\<close>

lemma sint_16_of_uint:
  fixes w :: "16 word"
  shows "uint w < 2 ^ 15 \<Longrightarrow> sint w = uint w"
    and "2 ^ 15 \<le> uint w \<Longrightarrow> sint w = uint w - 65536"
proof -
  have w: "w = word_of_int (uint w)" by simp
  have b: "0 \<le> uint w" "uint w < 65536"
    using unsigned_less [of w, where ?'a = int] by simp_all
  have s: "sint w = signed_take_bit 15 (uint w)"
    by (subst w) (simp only: sint_sbintrunc', simp)
  show "sint w = uint w" if "uint w < 2 ^ 15"
  proof -
    have "(- (2 ^ 15) :: int) \<le> 0" by simp
    then have "- (2 ^ 15) \<le> uint w" using b(1) by (rule order_trans)
    then show ?thesis
      unfolding s using that by (rule signed_take_bit_int_eq_self)
  qed
  show "sint w = uint w - 65536" if "2 ^ 15 \<le> uint w"
  proof -
    have t: "32768 \<le> uint w" using that by simp
    have "uint w + 32768 = (uint w - 32768) + 65536" by simp
    then have "(uint w + 32768) mod 65536 = (uint w - 32768) mod 65536"
      by (simp only: mod_add_self2)
    also have "\<dots> = uint w - 32768"
      using t b(2) by (intro mod_pos_pos_trivial) linarith+
    finally have "(uint w + 32768) mod 65536 = uint w - 32768" .
    then show ?thesis
      unfolding s by (simp add: signed_take_bit_eq_take_bit_shift take_bit_eq_mod)
  qed
qed

lemma sint_16_of_unat:
  fixes w :: "16 word"
  shows "unat w < 2 ^ 15 \<Longrightarrow> sint w = int (unat w)"
    and "2 ^ 15 \<le> unat w \<Longrightarrow> sint w = int (unat w) - 65536"
proof -
  have u: "uint w = int (unat w)" by simp
  show "sint w = int (unat w)" if "unat w < 2 ^ 15"
  proof -
    have "int (unat w) < int (2 ^ 15)" using that by (simp only: of_nat_less_iff)
    then have "uint w < 2 ^ 15" by simp
    then show ?thesis unfolding u [symmetric] by (rule sint_16_of_uint(1))
  qed
  show "sint w = int (unat w) - 65536" if "2 ^ 15 \<le> unat w"
  proof -
    have "int (2 ^ 15) \<le> int (unat w)" using that by (simp only: of_nat_le_iff)
    then have "2 ^ 15 \<le> uint w" by simp
    then show ?thesis unfolding u [symmetric] by (rule sint_16_of_uint(2))
  qed
qed

lemma rpm_formula_sint:
  assumes "elapsed \<noteq> 0"
  shows "(30000000 div unat elapsed) * unat p < 2 ^ 15 \<Longrightarrow>
           sint (rpm_formula u elapsed p) = int ((30000000 div unat elapsed) * unat p)"
    and "2 ^ 15 \<le> (30000000 div unat elapsed) * unat p \<Longrightarrow>
         (30000000 div unat elapsed) * unat p < 2 ^ 16 \<Longrightarrow>
           sint (rpm_formula u elapsed p) = int ((30000000 div unat elapsed) * unat p) - 65536"
proof -
  show "sint (rpm_formula u elapsed p) = int ((30000000 div unat elapsed) * unat p)"
    if a: "(30000000 div unat elapsed) * unat p < 2 ^ 15"
  proof -
    have "(30000000 div unat elapsed) * unat p < 2 ^ 16" using a by simp
    then have "unat (rpm_formula u elapsed p) = (30000000 div unat elapsed) * unat p"
      using assms by (intro rpm_formula_unat)
    with a show ?thesis by (simp only: sint_16_of_unat(1))
  qed
  show "sint (rpm_formula u elapsed p) = int ((30000000 div unat elapsed) * unat p) - 65536"
    if a: "2 ^ 15 \<le> (30000000 div unat elapsed) * unat p"
      and b: "(30000000 div unat elapsed) * unat p < 2 ^ 16"
  proof -
    have "unat (rpm_formula u elapsed p) = (30000000 div unat elapsed) * unat p"
      using assms b by (intro rpm_formula_unat)
    with a show ?thesis by (simp only: sint_16_of_unat(2))
  qed
qed

text \<open>
  C9. When the refresh sees a pulse count of 30 or more, the engine speed becomes
  (30 000 000 \<open>div\<close> elapsed microseconds) times the pulse count it saw, computed in 32
  bits, cut to 16 and read as a signed \<open>int\<close>: the product itself when the elapsed time
  is not zero and the product is below 32768, the product less 65536 when it is from
  32768 to 65535. The unsigned \<open>rpm\<close> holds the same 16 bits, the time reference
  becomes the second clock reading and the pulse count zero. Below 30 pulses the
  engine speed, \<open>rpm\<close>, the time reference and the pulse count stay as they were.
\<close>

theorem updateSensorValues_rpm:
  "(30 \<le> uint (rpm_pulse_count st) \<longrightarrow>
      eng_rpm (updateSensorValues u inp st)
        = rpm_formula u (micros_elapsed inp - time_old st) (rpm_pulse_count st)
      \<and> rpm (updateSensorValues u inp st) = eng_rpm (updateSensorValues u inp st)
      \<and> time_old (updateSensorValues u inp st) = micros_reset inp
      \<and> rpm_pulse_count (updateSensorValues u inp st) = 0)
   \<and> (elapsed \<noteq> 0 \<longrightarrow>
        rpm_formula u elapsed pulses = ucast ((30000000 div elapsed) * ucast pulses))
   \<and> (elapsed \<noteq> 0 \<and> (30000000 div unat elapsed) * unat pulses < 2 ^ 15 \<longrightarrow>
        sint (rpm_formula u elapsed pulses) = int ((30000000 div unat elapsed) * unat pulses))
   \<and> (elapsed \<noteq> 0 \<and> 2 ^ 15 \<le> (30000000 div unat elapsed) * unat pulses
        \<and> (30000000 div unat elapsed) * unat pulses < 2 ^ 16 \<longrightarrow>
        sint (rpm_formula u elapsed pulses)
          = int ((30000000 div unat elapsed) * unat pulses) - 65536)
   \<and> (elapsed \<noteq> 0 \<and> (30000000 div unat elapsed) * unat pulses < 2 ^ 16 \<longrightarrow>
        unat (rpm_formula u elapsed pulses) = (30000000 div unat elapsed) * unat pulses)
   \<and> (uint (rpm_pulse_count st) < 30 \<longrightarrow>
        eng_rpm (updateSensorValues u inp st) = eng_rpm st
        \<and> rpm (updateSensorValues u inp st) = rpm st
        \<and> time_old (updateSensorValues u inp st) = time_old st
        \<and> rpm_pulse_count (updateSensorValues u inp st) = rpm_pulse_count st)"
proof (intro conjI impI)
  assume "elapsed \<noteq> 0 \<and> (30000000 div unat elapsed) * unat pulses < 2 ^ 16"
  then show "unat (rpm_formula u elapsed pulses) = (30000000 div unat elapsed) * unat pulses"
    by (simp add: rpm_formula_unat)
next
  assume "elapsed \<noteq> 0 \<and> (30000000 div unat elapsed) * unat pulses < 2 ^ 15"
  then show "sint (rpm_formula u elapsed pulses)
      = int ((30000000 div unat elapsed) * unat pulses)"
    by (intro rpm_formula_sint(1)) simp_all
next
  assume "elapsed \<noteq> 0 \<and> 2 ^ 15 \<le> (30000000 div unat elapsed) * unat pulses
    \<and> (30000000 div unat elapsed) * unat pulses < 2 ^ 16"
  then show "sint (rpm_formula u elapsed pulses)
      = int ((30000000 div unat elapsed) * unat pulses) - 65536"
    by (intro rpm_formula_sint(2)) simp_all
next
  assume "elapsed \<noteq> 0"
  then show "rpm_formula u elapsed pulses = ucast ((30000000 div elapsed) * ucast pulses)"
    by (rule rpm_formula_nonzero)
qed (simp_all add: updateSensorValues_def Let_def)

theorem updateSensorValues_rpm_witness:
  "30 \<le> uint (rpm_pulse_count (power_on\<lparr>rpm_pulse_count := 30\<rparr>))
   \<and> uint (rpm_pulse_count (power_on\<lparr>rpm_pulse_count := 29\<rparr>)) < 30
   \<and> (1000000 :: 32 word) \<noteq> 0 \<and> (30000000 div unat (1000000 :: 32 word)) * unat (30 :: 8 word) < 2 ^ 15
   \<and> sint (rpm_formula no_junk 1000000 30) = 900
   \<and> (20000 :: 32 word) \<noteq> 0 \<and> 2 ^ 15 \<le> (30000000 div unat (20000 :: 32 word)) * unat (30 :: 8 word)
   \<and> (30000000 div unat (20000 :: 32 word)) * unat (30 :: 8 word) < 2 ^ 16
   \<and> sint (rpm_formula no_junk 20000 30) = - 20536
   \<and> unat (rpm_formula no_junk 20000 30) = 45000
   \<and> sint (eng_rpm (updateSensorValues no_junk (cycle0 None) (power_on\<lparr>rpm_pulse_count := 30\<rparr>))) = 900
   \<and> time_old (updateSensorValues no_junk (cycle0 None) (power_on\<lparr>rpm_pulse_count := 30\<rparr>)) = 1000004
   \<and> rpm_pulse_count (updateSensorValues no_junk (cycle0 None) (power_on\<lparr>rpm_pulse_count := 30\<rparr>)) = 0
   \<and> eng_rpm (updateSensorValues no_junk (cycle0 None) (power_on\<lparr>rpm_pulse_count := 29\<rparr>)) = 5400"
  using
    updateSensorValues_rpm [where st = "power_on\<lparr>rpm_pulse_count := 30\<rparr>" and u = no_junk
      and inp = "cycle0 None" and elapsed = 1000000 and pulses = 30]
    updateSensorValues_rpm [where st = "power_on\<lparr>rpm_pulse_count := 29\<rparr>" and u = no_junk
      and inp = "cycle0 None" and elapsed = 20000 and pulses = 30]
  by (simp add: cycle0_def power_on_def)

text \<open>
  Against C9 as it was stated: with 31 pulses in one second the engine speed becomes
  30 \<times> 31 = 930, not (30 \<times> 1 000 000 \<open>div\<close> 1 000 000) \<times> 30 = 900: the factor is the
  pulse count, not the threshold.
\<close>

theorem rpm_times_threshold_counterexample:
  "30 \<le> uint (rpm_pulse_count (power_on\<lparr>rpm_pulse_count := 31\<rparr>))
   \<and> sint (eng_rpm (updateSensorValues no_junk (cycle0 None) (power_on\<lparr>rpm_pulse_count := 31\<rparr>)))
       = 930
   \<and> (930::int) \<noteq> (30 * 1000000 div 1000000) * 30"
  by (simp add: updateSensorValues_def Let_def rpm_formula_def cycle0_def power_on_def)

subsection \<open>Rounding to binary32\<close>

lemma bit_length_le: "bit_length n \<le> k \<longleftrightarrow> n < 2 ^ k"
proof (induction n arbitrary: k rule: bit_length.induct)
  case (1 n)
  show ?case
  proof (cases "n = 0")
    case True
    then show ?thesis by (subst bit_length.simps) simp
  next
    case False
    then have len: "bit_length n = Suc (bit_length (n div 2))"
      by (subst bit_length.simps) simp
    show ?thesis
    proof (cases k)
      case 0
      with False len show ?thesis by simp
    next
      case (Suc j)
      have "bit_length (n div 2) \<le> j \<longleftrightarrow> n div 2 < 2 ^ j"
        using "1.IH" [OF False] .
      moreover have "n div 2 < 2 ^ j \<longleftrightarrow> n < 2 ^ Suc j"
        by (simp add: div_less_iff_less_mult mult.commute)
      ultimately show ?thesis using len Suc by simp
    qed
  qed
qed

lemma bit_length_pos: "0 < n \<Longrightarrow> 0 < bit_length n"
  by (subst bit_length.simps) simp

lemma pow2_nonpos: "p \<le> 0 \<Longrightarrow> pow2 p = 1 / 2 ^ nat (- p)"
  by (cases "p = 0") (simp_all add: pow2_def)

lemma round_to_even_of_int: "round_to_even (of_int m) = m"
  by (simp add: round_to_even_def)

lemma round_to_even_le:
  assumes "x \<le> of_int N"
  shows "round_to_even x \<le> N"
proof (cases "x = of_int N")
  case True
  then show ?thesis by (simp add: round_to_even_of_int)
next
  case False
  with assms have "x < of_int N" by simp
  then have "\<lfloor>x\<rfloor> < N" by (simp add: floor_less_iff)
  then have "\<lfloor>x\<rfloor> + 1 \<le> N" by simp
  then show ?thesis
    by (auto simp: round_to_even_def Let_def)
qed

lemma round_to_even_ge:
  assumes "of_int N \<le> x"
  shows "N \<le> round_to_even x"
proof -
  have "N \<le> \<lfloor>x\<rfloor>" using assms by (simp add: le_floor_iff)
  then show ?thesis
    by (auto simp: round_to_even_def Let_def)
qed

lemma exponent_le_23:
  assumes "q \<noteq> 0" and "\<bar>q\<bar> < 2 ^ 24"
  shows "exponent q \<le> 23"
proof (cases "1 \<le> \<bar>q\<bar>")
  case True
  have "\<lfloor>\<bar>q\<bar>\<rfloor> < 2 ^ 24" using assms(2) by (simp add: floor_less_iff)
  then have "nat \<lfloor>\<bar>q\<bar>\<rfloor> < 2 ^ 24" by (simp add: nat_less_iff)
  then have "bit_length (nat \<lfloor>\<bar>q\<bar>\<rfloor>) \<le> 24" by (simp add: bit_length_le)
  with True show ?thesis by (simp add: exponent_def)
next
  case False
  then have "1 < 1 / \<bar>q\<bar>" using assms(1) by simp
  then have "1 \<le> \<lfloor>1 / \<bar>q\<bar>\<rfloor>" by (simp add: le_floor_iff)
  then have "0 < nat \<lfloor>1 / \<bar>q\<bar>\<rfloor>" by simp
  then have "0 < bit_length (nat \<lfloor>1 / \<bar>q\<bar>\<rfloor>)" by (rule bit_length_pos)
  with False show ?thesis by (simp add: exponent_def Let_def)
qed

text \<open>
  Below \<open>2 ^ 24\<close> the last binary digit of a binary32 value is worth at most 1: the
  value is a rounded multiple of a power of two that divides 1.
\<close>

lemma binary32_quantum:
  assumes "q \<noteq> 0" and "\<bar>q\<bar> < 2 ^ 24"
  obtains p where "p \<le> 0"
    and "binary32 q = of_int (round_to_even (q * 2 ^ nat (- p))) / 2 ^ nat (- p)"
proof -
  let ?p = "max (exponent q - 23) (- 149)"
  have p: "?p \<le> 0" using exponent_le_23 [OF assms] by simp
  have "binary32 q = of_int (round_to_even (q / pow2 ?p)) * pow2 ?p"
    using assms(1) by (simp add: binary32_def Let_def)
  then have "binary32 q = of_int (round_to_even (q * 2 ^ nat (- ?p))) / 2 ^ nat (- ?p)"
    by (simp add: pow2_nonpos [OF p])
  with p show thesis by (rule that)
qed

text \<open>So rounding never crosses an integer there, and keeps every integer.\<close>

lemma binary32_le_int:
  assumes "q \<le> of_int N" and "\<bar>q\<bar> < 2 ^ 24"
  shows "binary32 q \<le> of_int N"
proof (cases "q = 0")
  case True
  with assms(1) show ?thesis by (simp add: binary32_def)
next
  case False
  then obtain p where "binary32 q = of_int (round_to_even (q * 2 ^ nat (- p))) / 2 ^ nat (- p)"
    using assms(2) by (rule binary32_quantum)
  moreover have "q * 2 ^ nat (- p) \<le> of_int (N * 2 ^ nat (- p))"
    using assms(1) by simp
  then have "round_to_even (q * 2 ^ nat (- p)) \<le> N * 2 ^ nat (- p)"
    by (rule round_to_even_le)
  then have "(of_int (round_to_even (q * 2 ^ nat (- p))) :: rat) \<le> of_int (N * 2 ^ nat (- p))"
    by (simp only: of_int_le_iff)
  then have "(of_int (round_to_even (q * 2 ^ nat (- p))) :: rat) / 2 ^ nat (- p) \<le> of_int N"
    by (simp add: pos_divide_le_eq)
  ultimately show ?thesis by simp
qed

lemma binary32_ge_int:
  assumes "of_int N \<le> q" and "\<bar>q\<bar> < 2 ^ 24"
  shows "of_int N \<le> binary32 q"
proof (cases "q = 0")
  case True
  with assms(1) show ?thesis by (simp add: binary32_def)
next
  case False
  then obtain p where "binary32 q = of_int (round_to_even (q * 2 ^ nat (- p))) / 2 ^ nat (- p)"
    using assms(2) by (rule binary32_quantum)
  moreover have "of_int (N * 2 ^ nat (- p)) \<le> q * 2 ^ nat (- p)"
    using assms(1) by simp
  then have "N * 2 ^ nat (- p) \<le> round_to_even (q * 2 ^ nat (- p))"
    by (rule round_to_even_ge)
  then have "(of_int (N * 2 ^ nat (- p)) :: rat) \<le> of_int (round_to_even (q * 2 ^ nat (- p)))"
    by (simp only: of_int_le_iff)
  then have "of_int N \<le> (of_int (round_to_even (q * 2 ^ nat (- p))) :: rat) / 2 ^ nat (- p)"
    by (simp add: pos_le_divide_eq)
  ultimately show ?thesis by simp
qed

lemma binary32_of_int:
  assumes "\<bar>n\<bar> < 2 ^ 24"
  shows "binary32 (of_int n) = of_int n"
proof -
  have a: "\<bar>of_int n :: rat\<bar> < 2 ^ 24"
    using assms by (metis of_int_abs of_int_less_iff of_int_numeral of_int_power)
  have "binary32 (of_int n) \<le> of_int n"
    by (rule binary32_le_int [OF _ a]) simp
  moreover have "of_int n \<le> binary32 (of_int n)"
    by (rule binary32_ge_int [OF _ a]) simp
  ultimately show ?thesis by simp
qed

lemma binary32_numeral: "(numeral k :: int) < 2 ^ 24 \<Longrightarrow> binary32 (numeral k) = numeral k"
  using binary32_of_int [of "numeral k"] by simp






lemmas binary32_eval =
  binary32_def exponent_def round_to_even_def pow2_def bit_length.simps Let_def
  floor_rat_numeral_div

text \<open>
  Two values where the rounding shows: the fuel level 754949/8192 (about 92.157) gives
  235 where the exact quotient and product give 234.99999, and the coolant
  temperature 89 - 1/131072 plus 40 gives 129 where the exact sum is below it.
\<close>

lemma binary32_rounding_samples:
  "fmul (fdiv (754949 / 8192) 100) 255 = 235"
  "trunc (754949 / 8192 / 100 * 255) = 234"
  "fadd (11665407 / 131072) 40 = 129"
  "trunc (11665407 / 131072 + 40) = 128"
  by (simp_all add: fmul_def fdiv_def fadd_def trunc_def binary32_eval)

text \<open>The constant of the supported-PID reply is a binary32 value.\<close>

lemma bitmap_is_binary32: "binary32 142249984 = 142249984"
  by (simp add: binary32_eval)

lemma fuel_89_rounded: "fmul (fdiv 89 100) 255 = 14873395 / 65536"
  by (simp add: fmul_def fdiv_def binary32_eval)

subsection \<open>The mode-01 transforms\<close>










lemma int_to_double_less: "sint r < b \<Longrightarrow> int_to_double r < of_int b"
  unfolding int_to_double_def by (simp only: of_int_less_iff)

lemma int_to_double_ge: "a \<le> sint r \<Longrightarrow> of_int a \<le> int_to_double r"
  unfolding int_to_double_def by (simp only: of_int_le_iff)

lemma mode01_reply:
  assumes "mode01_locals u st pid = (Some b, Some q)" and "NUL \<notin> set pid"
  shows "processRequest u st (''01'' @ pid) =
     st\<lparr>BtSerial := BtSerial st @ [''41'' @ pid @ toHexReply (double_to_ulong u q) (uint b), ''>'']\<rparr>"
proof -
  have n: "NUL \<notin> set (''01'' @ pid)" using assms(2) by (simp add: NUL_def)
  have c: "String_copy (''01'' @ pid) = ''01'' @ pid"
    using n by (rule String_copy_no_NUL)
  have "substring (''01'' @ pid) 2 = drop 2 (''01'' @ pid)"
    using n by (rule substring_no_NUL)
  then have p: "substring (String_copy (''01'' @ pid)) 2 = pid"
    unfolding c by simp
  have sw: "startsWith (String_copy (''01'' @ pid)) ''01''"
    unfolding c by (simp add: startsWith_def)
  show ?thesis
    unfolding processRequest_mode01 [OF sw] p
    using assms(1) by (simp add: read_after_formula_def read_reply_bytes_def)
qed







lemma reply_012F:
  "processRequest u st (''01'' @ ''2F'') =
     st\<lparr>BtSerial := BtSerial st @
        [''41'' @ ''2F'' @ toHexReply (double_to_ulong u
            (int_to_double (double_to_int u (fmul (fdiv (fuel_percentage st) 100) 255)))) 1,
         ''>'']\<rparr>"
  by (subst mode01_reply [where b = 1
        and q = "int_to_double (double_to_int u (fmul (fdiv (fuel_percentage st) 100) 255))"])
    (simp_all add: mode01_locals_def const_defs NUL_def)









lemma refreshed_values:
  "eng_coolant_temp refreshed = 93" "vehicle_speed refreshed = 155"
  "in_manifld_press_abs refreshed = 200" "ambient_air_temp refreshed = 22"
  "eng_oil_temp refreshed = 109" "fuel_percentage refreshed = 89" "eng_rpm refreshed = 5400"
  "BtSerial refreshed = []"
  by (simp_all add: refreshed_def updateSensorValues_def sketch_setup_def initSensors_def
      power_on_def cycle0_def Let_def)





lemmas toHexReply_eval =
  toHexReply_def String_HEX_def MAX_REPLY_LEN_def ultoa_hex.simps pad_loop.simps hex_digit_def
  double_to_ulong_def trunc_def

lemma sample_values:
  "fadd 93 40 = 133" "fadd 109 40 = 149" "fadd 22 40 = 62" "fmul 5400 4 = 21600"
  "fmul 19980 4 = 79920"
  by (simp_all add: fadd_def fmul_def binary32_numeral)

lemma sample_payloads:
  "toHexReply (double_to_ulong u 133) 1 = ''85''"
  "toHexReply (double_to_ulong u 149) 1 = ''95''"
  "toHexReply (double_to_ulong u 62) 1 = ''3e''"
  "toHexReply (double_to_ulong u 21600) 2 = ''5460''"
  "toHexReply (double_to_ulong u 155) 1 = ''9b''"
  "toHexReply (double_to_ulong u 200) 1 = ''c8''"
  "toHexReply (double_to_ulong u 79920) 2 = ''13830''"
  "toHexReply 226 1 = ''e2''"
  "toHexReply (double_to_ulong u 312) 2 = ''0138''"
  by (simp_all add: toHexReply_eval)

lemma fuel_89_value:
  "double_to_ulong u (int_to_double (double_to_int u (fmul (fdiv 89 100) 255))) = 226"
  by (simp add: fuel_89_rounded double_to_int_def trunc_def floor_rat_numeral_div
      int_to_double_def double_to_ulong_def)

lemma hex_val_e2: "hex_val ''e2'' = 226"
  by (simp add: hex_val_def hex_digit_val_def)



text \<open>
  C5. With a stored fuel level of 89 the request 012F is answered with the payload e2:
  89 over 100 times 255 is 226.95, which is 226 without its fraction, and e2 denotes
  226.
\<close>

theorem fuel_89_payload_e2:
  assumes "fuel_percentage st = 89"
  shows "processRequest u st ''012F'' = st\<lparr>BtSerial := BtSerial st @ [''412Fe2'', ''>'']\<rparr>
         \<and> trunc (89 / 100 * 255) = 226 \<and> hex_val ''e2'' = 226"
proof -
  have "processRequest u st (''01'' @ ''2F'') =
      st\<lparr>BtSerial := BtSerial st @
        [''41'' @ ''2F'' @ toHexReply (double_to_ulong u
            (int_to_double (double_to_int u (fmul (fdiv (fuel_percentage st) 100) 255)))) 1,
         ''>'']\<rparr>"
    by (rule reply_012F)
  then have "processRequest u st ''012F'' = st\<lparr>BtSerial := BtSerial st @ [''412Fe2'', ''>'']\<rparr>"
    by (simp add: assms fuel_89_value sample_payloads)
  then show ?thesis by (simp add: trunc_def floor_rat_numeral_div hex_val_e2)
qed

theorem fuel_89_payload_e2_witness:
  "fuel_percentage refreshed = 89
   \<and> BtSerial (processRequest no_junk refreshed ''012F'') = [''412Fe2'', ''>'']"
  using fuel_89_payload_e2 [of refreshed no_junk]
  by (simp add: refreshed_values)

text \<open>
  Against C5 as it was stated: after a refresh the fuel level is 89 and the payload for
  PID 2F is e2, that is 226: neither E3 nor 227.
\<close>

theorem fuel_89_payload_counterexample:
  "fuel_percentage refreshed = 89
   \<and> BtSerial (processRequest no_junk refreshed ''012F'') = [''412F'' @ ''e2'', ''>'']
   \<and> hex_val ''e2'' \<noteq> 227 \<and> ''e2'' \<noteq> ''E3'' \<and> trunc (89 / 100 * 255) \<noteq> 227"
proof -
  have "processRequest no_junk refreshed (''01'' @ ''2F'') =
      refreshed\<lparr>BtSerial := BtSerial refreshed @
        [''41'' @ ''2F'' @ toHexReply (double_to_ulong no_junk
            (int_to_double (double_to_int no_junk (fmul (fdiv (fuel_percentage refreshed) 100) 255)))) 1,
         ''>'']\<rparr>"
    by (rule reply_012F)
  then show ?thesis
    by (simp add: refreshed_values fuel_89_value sample_payloads trunc_def
        floor_rat_numeral_div hex_val_e2)
qed

subsection \<open>Requests with a NUL character, and from the port to the reply\<close>

lemmas processRequest_eval =
  processRequest_def String_copy_def c_str_def NUL_def substring_def startsWith_def
  MODE_01_REQ_def MODE_21_REQ_def AT_REQ_def MODE_01_RSP_def MODE_21_RSP_def
  MODE_1_SUPPORTED_PIDS_def MODE_1_ENG_COOLANT_TEMP_def MODE_1_IN_MANIFLD_PRESS_ABS_def
  MODE_1_ENG_RPM_def MODE_1_VEHICLE_SPEED_def MODE_1_FUEL_TANK_LVL_IN_def
  MODE_1_AMBIENT_AIR_TEMP_def MODE_1_ENG_OIL_TEMP_def
  debug_println_eq replyOBD2_eq replyPrompt_def replyValue_eq PROMPT_def
  mode01_locals_def mode21_locals_def TEMP_OFFSET_def read_after_formula_def
  read_reply_bytes_def Let_def

text \<open>
  Lines with a NUL character: what follows it is not seen, so 0105 NUL X is the request
  0105, 01 NUL 05 the request 01 with an empty PID, and 2113 NUL the request 2113.
\<close>

lemma NUL_samples:
  "BtSerial (processRequest u refreshed (''0105'' @ [NUL] @ ''X'')) = [''410585'', ''>'']"
  "BtSerial (processRequest u refreshed (''01'' @ [NUL] @ ''05'')) = [''4100'', ''>'']"
  "BtSerial (processRequest u (refreshed\<lparr>vehicle_speed_2 := 312\<rparr>) (''2113'' @ [NUL]))
     = [''61130138'', ''>'']"
  by (simp_all add: processRequest_eval refreshed_values sample_values sample_payloads
      double_to_ulong_0 toHexReply_0_1)

text \<open>
  After \<open>setup\<close>, the characters of the request 0105 with a space in front and a
  carriage return and a line feed behind, one for each pass of \<open>loop\<close>, make the
  simulator print the coolant temperature 93 + 40 = 133 as 85, then the prompt, once.
\<close>

lemma run_loop_sample:
  "BtSerial (run_loop no_junk (map (\<lambda>c. cycle0 (Some c)) ('' 0105'' @ [CR, LF]))
      (sketch_setup power_on)) = [''410585'', ''>'']"
  by (simp add: loop_def loop_lexer_def cycle0_def CR_def LF_def SPACE_def
      updateSensorValues_def sketch_setup_def initSensors_def power_on_def
      toUpperCase_def toupper_def processRequest_eval sample_values sample_payloads)

text \<open>
  Against C2 as it was stated: with the buffer a, t, NUL, z a carriage return
  upper-cases a and t only, and the line \<open>processRequest\<close> works on is AT, not the
  buffer in upper case; the characters 0105, NUL, x and a carriage return are answered
  like the line 0105.
\<close>

theorem flush_cut_at_NUL_counterexample:
  "loop_lexer CR (''at'' @ [NUL] @ ''z'') = (Some (''AT'' @ [NUL] @ ''z''), [])
   \<and> String_copy (''AT'' @ [NUL] @ ''z'') = ''AT''
   \<and> ''AT'' \<noteq> map toupper (''at'' @ [NUL] @ ''z'')
   \<and> BtSerial (run_loop no_junk (map (\<lambda>c. cycle0 (Some c)) (''0105'' @ [NUL] @ ''x'' @ [CR]))
        (sketch_setup power_on)) = [''410585'', ''>'']"
  by (simp add: loop_def loop_lexer_def cycle0_def CR_def LF_def SPACE_def
      updateSensorValues_def sketch_setup_def initSensors_def power_on_def
      toUpperCase_def toupper_def char_of_def bit_Suc_0_iff processRequest_eval sample_values
      sample_payloads)

end
